theory Spec2Isabelle
  imports Main "HOL-Library.Product_Lexorder" "HOL-Library.Sublist"
begin

section \<open>Landsat downloader (downloader_all_sat.py): a shallow embedding\<close>

text \<open>
  The script maps a date window to the Landsat collections that were operating in it,
  asks the USGS M2M service for scenes and download options, keeps the products of three
  band names, requests a bulk download, fetches every file and finally lower-cases the
  \<open>.TIF\<close> extension. Strings are \<open>char list\<close> (the model covers ASCII text); every
  exception of the Python is a value of \<open>error\<close>; the remote service, the clock and
  the operating system are read from a record of oracles, \<open>world\<close>.
\<close>

subsection \<open>Errors\<close>

datatype error =
    ValueError
  | TypeError
  | RequestError string
  | OSError string

subsection \<open>Dates\<close>

text \<open>
  A \<open>datetime.date\<close> is compared as the triple (year, month, day); the lexicographic
  order of HOL-Library.Product\_Lexorder is that comparison, so Python's \<open>max\<close> and
  \<open>min\<close> on dates are HOL's.
\<close>

type_synonym date = "nat \<times> nat \<times> nat"

definition is_digit :: "char \<Rightarrow> bool" where
  "is_digit c = (48 \<le> (of_char c :: nat) \<and> (of_char c :: nat) \<le> 57)"

definition digit_val :: "char \<Rightarrow> nat" where
  "digit_val c = of_char c - 48"

definition is_leap :: "nat \<Rightarrow> bool" where
  "is_leap y = (y mod 4 = 0 \<and> (y mod 100 \<noteq> 0 \<or> y mod 400 = 0))"

definition days_in_month :: "nat \<Rightarrow> nat \<Rightarrow> nat" where
  "days_in_month y m =
     (if m = 2 then (if is_leap y then 29 else 28)
      else if m = 4 \<or> m = 6 \<or> m = 9 \<or> m = 11 then 30 else 31)"

text \<open>
  \<open>datetime.date(y, m, d)\<close> raises ValueError outside 1..9999, 1..12 and the days of
  the month.
\<close>

definition make_date :: "nat \<Rightarrow> nat \<Rightarrow> nat \<Rightarrow> error + date" where
  "make_date y m d =
     (if 1 \<le> y \<and> y \<le> 9999 \<and> 1 \<le> m \<and> m \<le> 12 \<and> 1 \<le> d \<and> d \<le> days_in_month y m
      then Inr (y, m, d) else Inl ValueError)"

text \<open>
  \<open>datetime.datetime.strptime(s, "%Y-%m-%d").date()\<close>. The library turns the format
  into the regular expression
  \<^verbatim>\<open>(\d\d\d\d)-(1[0-2]|0[1-9]|[1-9])-(3[0-1]|[1-2]\d|0[1-9]|[1-9]| [1-9])\<close>,
  matches it at the start of the string, raises ValueError when it does not match or
  when text remains after the match, and then builds the date. The three parsers below
  return the number read and the rest of the string, trying the alternatives in the
  order of the expression.
\<close>

fun parse_year :: "string \<Rightarrow> (nat \<times> string) option" where
  "parse_year (a # b # c # d # rest) =
     (if is_digit a \<and> is_digit b \<and> is_digit c \<and> is_digit d
      then Some (1000 * digit_val a + 100 * digit_val b + 10 * digit_val c + digit_val d, rest)
      else None)"
| "parse_year _ = None"

definition in_range :: "char \<Rightarrow> nat \<Rightarrow> nat \<Rightarrow> bool" where
  "in_range c lo hi = (is_digit c \<and> lo \<le> digit_val c \<and> digit_val c \<le> hi)"

fun parse_month :: "string \<Rightarrow> (nat \<times> string) option" where
  "parse_month (a # b # rest) =
     (if digit_val a = 1 \<and> is_digit a \<and> in_range b 0 2 then Some (10 + digit_val b, rest)
      else if digit_val a = 0 \<and> is_digit a \<and> in_range b 1 9 then Some (digit_val b, rest)
      else if in_range a 1 9 then Some (digit_val a, b # rest)
      else None)"
| "parse_month [a] = (if in_range a 1 9 then Some (digit_val a, []) else None)"
| "parse_month [] = None"

fun parse_day :: "string \<Rightarrow> (nat \<times> string) option" where
  "parse_day (a # b # rest) =
     (if digit_val a = 3 \<and> is_digit a \<and> in_range b 0 1 then Some (30 + digit_val b, rest)
      else if in_range a 1 2 \<and> is_digit b then Some (10 * digit_val a + digit_val b, rest)
      else if digit_val a = 0 \<and> is_digit a \<and> in_range b 1 9 then Some (digit_val b, rest)
      else if in_range a 1 9 then Some (digit_val a, b # rest)
      else if a = CHR '' '' \<and> in_range b 1 9 then Some (digit_val b, rest)
      else None)"
| "parse_day [a] = (if in_range a 1 9 then Some (digit_val a, []) else None)"
| "parse_day [] = None"

definition expect_dash :: "string \<Rightarrow> string option" where
  "expect_dash s = (case s of c # rest \<Rightarrow> (if c = CHR ''-'' then Some rest else None) | [] \<Rightarrow> None)"

definition strptime_date :: "string \<Rightarrow> error + date" where
  "strptime_date s =
     (case parse_year s of
        None \<Rightarrow> Inl ValueError
      | Some (y, s1) \<Rightarrow>
          (case expect_dash s1 of
             None \<Rightarrow> Inl ValueError
           | Some s2 \<Rightarrow>
               (case parse_month s2 of
                  None \<Rightarrow> Inl ValueError
                | Some (m, s3) \<Rightarrow>
                    (case expect_dash s3 of
                       None \<Rightarrow> Inl ValueError
                     | Some s4 \<Rightarrow>
                         (case parse_day s4 of
                            None \<Rightarrow> Inl ValueError
                          | Some (d, s5) \<Rightarrow>
                              (if s5 = [] then make_date y m d else Inl ValueError))))))"

subsection \<open>Dataset selection\<close>

text \<open>The nested function \<open>overlaps\<close> of \<open>get_valid_datasets\<close>.\<close>

definition overlaps :: "date \<Rightarrow> date \<Rightarrow> date \<Rightarrow> date \<Rightarrow> bool" where
  "overlaps s1 e1 s2 e2 = (max s1 s2 \<le> min e1 e2)"

text \<open>
  \<open>valid\<close> is a Python set: \<open>valid.add\<close> keeps one copy of each element. The result
  \<open>list(valid)\<close> lists the set in an order Python does not specify; the model lists it
  in insertion order, and the theorems about it speak of membership only.
\<close>

definition set_add :: "'a \<Rightarrow> 'a list \<Rightarrow> 'a list" where
  "set_add x xs = (if x \<in> set xs then xs else xs @ [x])"

text \<open>\<open>today\<close> is the value of \<open>datetime.date.today()\<close> when the function runs.\<close>

definition get_valid_datasets :: "date \<Rightarrow> string \<Rightarrow> string \<Rightarrow> error + string list" where
  "get_valid_datasets today start_date end_date =
     (case strptime_date start_date of
        Inl e \<Rightarrow> Inl e
      | Inr start \<Rightarrow>
          (case strptime_date end_date of
             Inl e \<Rightarrow> Inl e
           | Inr end \<Rightarrow>
               (let valid0 = [];
                    valid1 = (if overlaps start end (1982, 7, 16) (2011, 6, 5)
                              then set_add ''landsat_tm_c2_l2'' valid0 else valid0);
                    valid2 = (if overlaps start end (1999, 4, 15) (2022, 4, 6)
                              then set_add ''landsat_etm_c2_l2'' valid1 else valid1);
                    valid3 = (if overlaps start end (2013, 2, 11) today
                              then set_add ''landsat_ot_c2_l2'' valid2 else valid2)
                in Inr valid3)))"

subsection \<open>Strings and paths\<close>

text \<open>Python's \<open>a in b\<close> on strings: \<open>a\<close> occurs in \<open>b\<close> as a contiguous run.\<close>

fun str_contains :: "string \<Rightarrow> string \<Rightarrow> bool" where
  "str_contains a [] = (a = [])"
| "str_contains a (c # cs) = (prefix a (c # cs) \<or> str_contains a cs)"

text \<open>
  \<open>str.upper\<close> on ASCII text: a letter \<open>a\<close>..\<open>z\<close> (codes 97..122) loses 32, which
  is its bit 5; every other character stays.
\<close>

definition upper_char :: "char \<Rightarrow> char" where
  "upper_char c =
     (if 97 \<le> (of_char c :: nat) \<and> (of_char c :: nat) \<le> 122
      then (case c of Char b0 b1 b2 b3 b4 b5 b6 b7 \<Rightarrow> Char b0 b1 b2 b3 b4 False b6 b7)
      else c)"

definition upper :: "string \<Rightarrow> string" where
  "upper s = map upper_char s"

text \<open>\<open>str.rfind\<close> of one character: the last index where it occurs, or -1.\<close>

fun rfind :: "char \<Rightarrow> string \<Rightarrow> int" where
  "rfind c [] = - 1"
| "rfind c (x # xs) =
     (let r = rfind c xs in if 0 \<le> r then r + 1 else if x = c then 0 else - 1)"

text \<open>
  \<open>os.path.splitext\<close> (POSIX): the extension starts at the last dot, if that dot comes
  after the last slash and some character between the two is not a dot (the loop that
  skips leading dots); otherwise the extension is empty.
\<close>

definition splitext :: "string \<Rightarrow> string \<times> string" where
  "splitext p =
     (let sepIndex = rfind CHR ''/'' p;
          dotIndex = rfind CHR ''.'' p
      in if sepIndex < dotIndex \<and>
            list_ex (\<lambda>c. c \<noteq> CHR ''.'')
              (take (nat (dotIndex - (sepIndex + 1))) (drop (nat (sepIndex + 1)) p))
         then (take (nat dotIndex) p, drop (nat dotIndex) p)
         else (p, []))"

text \<open>\<open>os.path.join\<close> (POSIX) of two components.\<close>

definition os_path_join :: "string \<Rightarrow> string \<Rightarrow> string" where
  "os_path_join a b =
     (if b \<noteq> [] \<and> hd b = CHR ''/'' then b
      else if a = [] \<or> last a = CHR ''/'' then a @ b
      else a @ CHR ''/'' # b)"

text \<open>
  \<open>re.findall(r"filename=(.+)", s)\<close>: the captured groups of the matches, left to
  right. A match is \<open>filename=\<close> followed by at least one character other than a
  newline; the group runs to the end of the line, and the search goes on after it.
\<close>

definition capture :: "string \<Rightarrow> string" where
  "capture s = takeWhile (\<lambda>x. x \<noteq> CHR 0x0A) (drop 9 s)"

fun findall_filename :: "string \<Rightarrow> string list" where
  "findall_filename [] = []"
| "findall_filename (c # cs) =
     (if prefix ''filename='' (c # cs) \<and> capture (c # cs) \<noteq> []
      then capture (c # cs) # findall_filename (drop (8 + length (capture (c # cs))) cs)
      else findall_filename cs)"

text \<open>\<open>s.strip("\"")\<close>: double quotes removed at both ends.\<close>

definition strip_quotes :: "string \<Rightarrow> string" where
  "strip_quotes s =
     rev (dropWhile (\<lambda>x. x = CHR 0x22) (rev (dropWhile (\<lambda>x. x = CHR 0x22) s)))"

subsection \<open>The file system\<close>

text \<open>
  A file system maps a path to what is there: a regular file with its bytes, or a
  directory. Failures that the map cannot show (permissions, a missing parent, a full
  disc) come from the oracle \<open>os_fault\<close> of the world.
\<close>

datatype entry = File string | Dir

type_synonym fs = "string \<rightharpoonup> entry"

definition isfile :: "fs \<Rightarrow> string \<Rightarrow> bool" where
  "isfile files p = (case files p of Some (File _) \<Rightarrow> True | _ \<Rightarrow> False)"

text \<open>\<open>open(p, 'wb')\<close>: the file exists and is empty afterwards.\<close>

definition open_wb :: "(string \<Rightarrow> error option) \<Rightarrow> fs \<Rightarrow> string \<Rightarrow> error + fs" where
  "open_wb fault files p =
     (case fault p of
        Some e \<Rightarrow> Inl e
      | None \<Rightarrow>
          (case files p of
             Some Dir \<Rightarrow> Inl (OSError ''IsADirectoryError'')
           | _ \<Rightarrow> Inr (files(p \<mapsto> File []))))"

text \<open>\<open>os.makedirs(d, exist_ok=True)\<close>.\<close>

definition makedirs :: "(string \<Rightarrow> error option) \<Rightarrow> fs \<Rightarrow> string \<Rightarrow> error + fs" where
  "makedirs fault files d =
     (case fault d of
        Some e \<Rightarrow> Inl e
      | None \<Rightarrow>
          (case files d of
             Some (File _) \<Rightarrow> Inl (OSError ''FileExistsError'')
           | _ \<Rightarrow> Inr (files(d \<mapsto> Dir))))"

text \<open>
  \<open>os.rename(src, dst)\<close> (POSIX): a missing source and a directory in the place of a
  file are errors, renaming a path to itself changes nothing, and an existing file at
  the destination is replaced.
\<close>

definition os_rename :: "(string \<Rightarrow> error option) \<Rightarrow> fs \<Rightarrow> string \<Rightarrow> string \<Rightarrow> error + fs" where
  "os_rename fault files src dst =
     (case fault dst of
        Some e \<Rightarrow> Inl e
      | None \<Rightarrow>
          (case files src of
             None \<Rightarrow> Inl (OSError ''FileNotFoundError'')
           | Some x \<Rightarrow>
               if src = dst then Inr files
               else (case (x, files dst) of
                       (File _, Some Dir) \<Rightarrow> Inl (OSError ''IsADirectoryError'')
                     | (Dir, Some (File _)) \<Rightarrow> Inl (OSError ''NotADirectoryError'')
                     | _ \<Rightarrow> Inr (files(src := None, dst \<mapsto> x)))))"

subsection \<open>The remote service and the program state\<close>

text \<open>
  An entry of \<open>secondaryDownloads\<close>, with the four keys the script reads
  (\<open>item["entityId"]\<close> and \<open>item["id"]\<close> are \<open>item_entityId\<close> and \<open>item_id\<close>).
\<close>

record item =
  bulkAvailable :: bool
  displayId :: string
  item_entityId :: string
  item_id :: string

text \<open>
  What \<open>option.get('secondaryDownloads')\<close> is for a row of the normalised table:
  \<open>Absent\<close> when it is None, \<open>NaN\<close> when the record lacked the key that other records
  have (the table fills the hole with a float that is truthy and cannot be iterated),
  \<open>Items\<close> when it is a list.
\<close>

datatype secondary = Absent | NaN | Items "item list"

record option_rec =
  secondaryDownloads :: secondary

text \<open>A download candidate, the dictionary appended to \<open>all_downloads\<close>.\<close>

record download =
  entityId :: string
  productId :: string

text \<open>
  The value of \<open>scenes\<close>: falsy, a dictionary without the key \<open>results\<close>, or the
  entity identifiers of \<open>scenes['results']\<close>.
\<close>

datatype scenes = Falsy | WithoutResults | Results "string list"

text \<open>
  The payloads of the four calls. The bounding box is passed on as the four floats that
  were parsed, of any type \<open>'f\<close>: the script does no arithmetic on them.
\<close>

datatype 'f payload =
    LoginPayload string string
  | SceneSearchPayload string string string "'f \<times> 'f" "'f \<times> 'f" nat
  | DownloadOptionsPayload string "string list" bool
  | DownloadRequestPayload "download list" string

text \<open>The response to \<open>requests.get(url, stream=True)\<close>.\<close>

record response =
  content_disposition :: "string option"
  content :: "error + string"

text \<open>
  The world outside the script. Each of the first four oracles is what \<open>sendRequest\<close>
  gives for one endpoint, payload and key: the exception raised by the post, by
  \<open>raise_for_status\<close>, by the decoding or by \<open>output['data']\<close>, or the data.
  \<open>download_request\<close> gives the urls of \<open>availableDownloads\<close>, None when the key is
  missing.
\<close>

record 'f world =
  date_today :: date
  now_label :: string
  login_token :: "'f payload \<Rightarrow> string option \<Rightarrow> error + string"
  scene_search :: "'f payload \<Rightarrow> string option \<Rightarrow> error + scenes"
  download_options :: "'f payload \<Rightarrow> string option \<Rightarrow> error + option_rec list"
  download_request :: "'f payload \<Rightarrow> string option \<Rightarrow> error + string list option"
  http_get :: "string \<Rightarrow> error + response"
  os_fault :: "string \<Rightarrow> error option"
  listdir :: "fs \<Rightarrow> string \<Rightarrow> error + string list"

text \<open>The command line after \<open>parse_args\<close>.\<close>

record 'f args =
  username :: string
  token :: string
  bbox :: "'f \<times> 'f \<times> 'f \<times> 'f"
  start_date :: string
  end_date :: string
  city :: string
  out_dir :: string

text \<open>One constructor for each \<open>print\<close> of the script, with the values it formats.\<close>

datatype msg =
    UsingDatasets "string list"
  | Searching string
  | NoScenes string
  | OptionsError string error
  | NoValidDownloads
  | FilesReady nat
  | NoFilename
  | Downloading string
  | Downloaded string
  | DownloadFailed error
  | DownloadComplete

text \<open>
  What the run leaves behind: the lines printed, the calls of \<open>sendRequest\<close> in order
  (url and payload), and the file system.
\<close>

record 'f state =
  printed :: "msg list"
  calls :: "(string \<times> 'f payload) list"
  files :: fs

definition print :: "msg \<Rightarrow> 'f state \<Rightarrow> 'f state" where
  "print m st = st\<lparr>printed := printed st @ [m]\<rparr>"

definition serviceUrl :: string where
  "serviceUrl = ''https://m2m.cr.usgs.gov/api/api/json/stable/''"

definition bandNames :: "string list" where
  "bandNames = [''QA_PIXEL'', ''ST_B10'', ''ST_B6'']"

text \<open>
  \<open>sendRequest(url, data, apiKey)\<close>: the call is recorded and the endpoint's oracle
  answers.
\<close>

definition sendRequest ::
  "('f payload \<Rightarrow> string option \<Rightarrow> error + 'd) \<Rightarrow> string \<Rightarrow> 'f payload \<Rightarrow> string option
     \<Rightarrow> 'f state \<Rightarrow> (error + 'd) \<times> 'f state" where
  "sendRequest endpoint url data apiKey st =
     (endpoint data apiKey, st\<lparr>calls := calls st @ [(url, data)]\<rparr>)"

subsection \<open>downloadFile\<close>

text \<open>
  The body of the \<open>try\<close>: the exception that leaves it, if any, and the state at that
  moment. \<open>open\<close> runs before \<open>response.content\<close> is read, so a failed read leaves an
  empty file.
\<close>

definition downloadFile_try :: "'f world \<Rightarrow> string \<Rightarrow> string \<Rightarrow> 'f state \<Rightarrow> error option \<times> 'f state" where
  "downloadFile_try w url path st =
     (case http_get w url of
        Inl e \<Rightarrow> (Some e, st)
      | Inr response \<Rightarrow>
          (let disposition = (case content_disposition response of None \<Rightarrow> [] | Some d \<Rightarrow> d);
               matches = findall_filename disposition
           in if matches = [] then (None, print NoFilename st)
              else
                (let filename = strip_quotes (hd matches);
                     st1 = print (Downloading filename) st;
                     p = os_path_join path filename
                 in case open_wb (os_fault w) (files st1) p of
                      Inl e \<Rightarrow> (Some e, st1)
                    | Inr files1 \<Rightarrow>
                        (case content response of
                           Inl e \<Rightarrow> (Some e, st1\<lparr>files := files1\<rparr>)
                         | Inr body \<Rightarrow>
                             (None, print (Downloaded filename)
                                      (st1\<lparr>files := files1(p \<mapsto> File body)\<rparr>))))))"

text \<open>
  \<open>downloadFile\<close> with its \<open>except Exception\<close>: the first component is the exception
  that reaches the caller, None when the function returns.
\<close>

definition downloadFile :: "'f world \<Rightarrow> string \<Rightarrow> string \<Rightarrow> 'f state \<Rightarrow> error option \<times> 'f state" where
  "downloadFile w url path st =
     (case downloadFile_try w url path st of
        (None, st') \<Rightarrow> (None, st')
      | (Some e, st') \<Rightarrow> (None, print (DownloadFailed e) st'))"

subsection \<open>The candidate selection loops\<close>

text \<open>The three nested loops of lines 128 to 136, innermost first.\<close>

fun band_loop :: "item \<Rightarrow> string list \<Rightarrow> download list \<Rightarrow> download list" where
  "band_loop item [] all_downloads = all_downloads"
| "band_loop item (bandName # rest) all_downloads =
     band_loop item rest
       (if bulkAvailable item \<and> str_contains bandName (displayId item)
        then all_downloads @ [\<lparr>entityId = item_entityId item, productId = item_id item\<rparr>]
        else all_downloads)"

fun item_loop :: "item list \<Rightarrow> download list \<Rightarrow> download list" where
  "item_loop [] all_downloads = all_downloads"
| "item_loop (item # rest) all_downloads =
     item_loop rest (band_loop item bandNames all_downloads)"

fun option_loop :: "option_rec list \<Rightarrow> download list \<Rightarrow> error + download list" where
  "option_loop [] all_downloads = Inr all_downloads"
| "option_loop (option # rest) all_downloads =
     (case secondaryDownloads option of
        Absent \<Rightarrow> option_loop rest all_downloads
      | NaN \<Rightarrow> Inl TypeError
      | Items items \<Rightarrow> option_loop rest (item_loop items all_downloads))"

subsection \<open>The loop over the datasets\<close>

definition scene_payload :: "'f args \<Rightarrow> string \<Rightarrow> 'f payload" where
  "scene_payload a datasetName =
     (case bbox a of (xmin, ymin, xmax, ymax) \<Rightarrow>
        SceneSearchPayload datasetName (start_date a) (end_date a) (ymin, xmin) (ymax, xmax) 70)"

text \<open>
  Lines 91 to 136. The result is the exception that ends the run, or \<open>all_downloads\<close>
  after the last dataset.
\<close>

fun process_datasets ::
  "'f world \<Rightarrow> 'f args \<Rightarrow> string option \<Rightarrow> string list \<Rightarrow> download list \<Rightarrow> 'f state
     \<Rightarrow> (error + download list) \<times> 'f state" where
  "process_datasets w a apiKey [] all_downloads st = (Inr all_downloads, st)"
| "process_datasets w a apiKey (datasetName # rest) all_downloads st =
     (case sendRequest (scene_search w) (serviceUrl @ ''scene-search'')
             (scene_payload a datasetName) apiKey (print (Searching datasetName) st) of
        (Inl e, st1) \<Rightarrow> (Inl e, st1)
      | (Inr Falsy, st1) \<Rightarrow>
          process_datasets w a apiKey rest all_downloads (print (NoScenes datasetName) st1)
      | (Inr WithoutResults, st1) \<Rightarrow>
          process_datasets w a apiKey rest all_downloads (print (NoScenes datasetName) st1)
      | (Inr (Results sceneIds), st1) \<Rightarrow>
          if sceneIds = []
          then process_datasets w a apiKey rest all_downloads (print (NoScenes datasetName) st1)
          else
            (case sendRequest (download_options w) (serviceUrl @ ''download-options'')
                    (DownloadOptionsPayload datasetName sceneIds True) apiKey st1 of
               (Inl e, st2) \<Rightarrow>
                 process_datasets w a apiKey rest all_downloads
                   (print (OptionsError datasetName e) st2)
             | (Inr options, st2) \<Rightarrow>
                 (case option_loop options all_downloads of
                    Inl e \<Rightarrow> (Inl e, st2)
                  | Inr all_downloads' \<Rightarrow>
                      process_datasets w a apiKey rest all_downloads' st2)))"

subsection \<open>The rename pass\<close>

text \<open>Lines 155 to 160, over the names that \<open>os.listdir\<close> returned.\<close>

fun rename_loop :: "(string \<Rightarrow> error option) \<Rightarrow> string \<Rightarrow> string list \<Rightarrow> fs \<Rightarrow> error + fs" where
  "rename_loop fault dir [] fls = Inr fls"
| "rename_loop fault dir (filename # rest) fls =
     (let infilename = os_path_join dir filename
      in if isfile fls infilename
         then (case splitext filename of
                 (oldbase, ext) \<Rightarrow>
                   if upper ext = ''.TIF''
                   then (case os_rename fault fls infilename
                                 (os_path_join dir (oldbase @ ''.tif'')) of
                           Inl e \<Rightarrow> Inl e
                         | Inr fls' \<Rightarrow> rename_loop fault dir rest fls')
                   else rename_loop fault dir rest fls)
         else rename_loop fault dir rest fls)"

subsection \<open>The main program\<close>

text \<open>
  How the process ends: \<open>sys.exit(n)\<close>, an uncaught exception, or the end of the
  script.
\<close>

datatype outcome = Exit nat | Crashed error | Completed

fun download_all :: "'f world \<Rightarrow> string list \<Rightarrow> string \<Rightarrow> 'f state \<Rightarrow> error option \<times> 'f state" where
  "download_all w [] path st = (None, st)"
| "download_all w (url # rest) path st =
     (case downloadFile w url path st of
        (Some e, st') \<Rightarrow> (Some e, st')
      | (None, st') \<Rightarrow> download_all w rest path st')"

text \<open>Lines 138 to 162, from the test of the accumulator to the end.\<close>

definition finish ::
  "'f world \<Rightarrow> 'f args \<Rightarrow> string option \<Rightarrow> download list \<Rightarrow> 'f state \<Rightarrow> outcome \<times> 'f state" where
  "finish w a apiKey all_downloads st =
     (if all_downloads = [] then (Exit 0, print NoValidDownloads st)
      else
        (case sendRequest (download_request w) (serviceUrl @ ''download-request'')
                (DownloadRequestPayload all_downloads (now_label w)) apiKey st of
           (Inl e, st1) \<Rightarrow> (Crashed e, st1)
         | (Inr requestResults, st1) \<Rightarrow>
             (let available = (case requestResults of None \<Rightarrow> [] | Some urls \<Rightarrow> urls);
                  st2 = print (FilesReady (length available)) st1
              in case makedirs (os_fault w) (files st2) (out_dir a) of
                   Inl e \<Rightarrow> (Crashed e, st2)
                 | Inr files1 \<Rightarrow>
                     (case download_all w available (out_dir a) (st2\<lparr>files := files1\<rparr>) of
                        (Some e, st3) \<Rightarrow> (Crashed e, st3)
                      | (None, st3) \<Rightarrow>
                          (case listdir w (files st3) (out_dir a) of
                             Inl e \<Rightarrow> (Crashed e, st3)
                           | Inr names \<Rightarrow>
                               (case rename_loop (os_fault w) (out_dir a) names (files st3) of
                                  Inl e \<Rightarrow> (Crashed e, st3)
                                | Inr files2 \<Rightarrow>
                                    (Completed,
                                     print DownloadComplete (st3\<lparr>files := files2\<rparr>))))))))"

text \<open>
  Lines 79 to 136 for a given list of dataset names: the login and the loop. The result
  is the key and the accumulator, or the exception that ends the run.
\<close>

definition search_all ::
  "'f world \<Rightarrow> 'f args \<Rightarrow> string list \<Rightarrow> fs
     \<Rightarrow> (error + string option \<times> download list) \<times> 'f state" where
  "search_all w a datasetNames files0 =
     (case sendRequest (login_token w) (serviceUrl @ ''login-token'')
             (LoginPayload (username a) (token a)) None
             (print (UsingDatasets datasetNames) \<lparr>printed = [], calls = [], files = files0\<rparr>) of
        (Inl e, st) \<Rightarrow> (Inl e, st)
      | (Inr apiKey, st) \<Rightarrow>
          (case process_datasets w a (Some apiKey) datasetNames [] st of
             (Inl e, st') \<Rightarrow> (Inl e, st')
           | (Inr all_downloads, st') \<Rightarrow> (Inr (Some apiKey, all_downloads), st')))"

definition run :: "'f world \<Rightarrow> 'f args \<Rightarrow> string list \<Rightarrow> fs \<Rightarrow> outcome \<times> 'f state" where
  "run w a datasetNames files0 =
     (case search_all w a datasetNames files0 of
        (Inl e, st) \<Rightarrow> (Crashed e, st)
      | (Inr (apiKey, all_downloads), st) \<Rightarrow> finish w a apiKey all_downloads st)"

text \<open>The script from line 79: the datasets of the window, then the rest.\<close>

definition main :: "'f world \<Rightarrow> 'f args \<Rightarrow> fs \<Rightarrow> outcome \<times> 'f state" where
  "main w a files0 =
     (case get_valid_datasets (date_today w) (start_date a) (end_date a) of
        Inl e \<Rightarrow> (Crashed e, \<lparr>printed = [], calls = [], files = files0\<rparr>)
      | Inr datasetNames \<Rightarrow> run w a datasetNames files0)"

subsection \<open>Auxiliary notions\<close>


text \<open>The two urls that the loop over the datasets posts to.\<close>

definition search_url :: "string \<Rightarrow> bool" where
  "search_url u = (u = serviceUrl @ ''scene-search'' \<or> u = serviceUrl @ ''download-options'')"

subsection \<open>A sample world\<close>

text \<open>
  A command line and a service to run the program on: every search answers \<open>sc\<close>, the
  options of the ETM+ collection fail with a server error, and every other collection
  offers one product of band \<open>ST_B10\<close>.
\<close>

definition sample_args :: "nat args" where
  "sample_args =
     \<lparr>username = ''user'', token = ''secret'', bbox = (11, 44, 12, 45),
      start_date = ''2012-01-01'', end_date = ''2014-01-01'', city = ''Bologna'',
      out_dir = ''out''\<rparr>"

definition sample_item :: item where
  "sample_item =
     \<lparr>bulkAvailable = True, displayId = ''LC08_ST_B10.TIF'', item_entityId = ''E1'',
      item_id = ''P1''\<rparr>"

definition sample_options :: "nat payload \<Rightarrow> string option \<Rightarrow> error + option_rec list" where
  "sample_options p k =
     (case p of
        DownloadOptionsPayload d ids incl \<Rightarrow>
          if d = ''landsat_etm_c2_l2'' then Inl (RequestError ''503'')
          else Inr [\<lparr>secondaryDownloads = Items [sample_item]\<rparr>]
      | _ \<Rightarrow> Inl TypeError)"

definition sample_world :: "scenes \<Rightarrow> nat world" where
  "sample_world sc =
     \<lparr>date_today = (2026, 11, 4), now_label = ''20261104_120000'',
      login_token = (\<lambda>p k. Inr ''key''),
      scene_search = (\<lambda>p k. Inr sc),
      download_options = sample_options,
      download_request = (\<lambda>p k. Inr (Some [''https://host/f1''])),
      http_get = (\<lambda>u. Inr \<lparr>content_disposition = Some ''attachment'', content = Inr ''data''\<rparr>),
      os_fault = (\<lambda>p. None),
      listdir = (\<lambda>fls d. Inr [])\<rparr>"

definition sample_state :: "nat state" where
  "sample_state = \<lparr>printed = [], calls = [], files = Map.empty\<rparr>"

section \<open>Properties\<close>

subsection \<open>Dataset selection\<close>

lemmas strptime_defs = strptime_date_def expect_dash_def is_digit_def digit_val_def
  in_range_def make_date_def days_in_month_def is_leap_def

text \<open>
  Once both strings parse, the function returns, without repetitions, exactly the
  identifiers whose interval overlaps the window.
\<close>

lemma get_valid_datasets_parsed:
  assumes "strptime_date sd = Inr s" and "strptime_date ed = Inr e"
  shows "\<exists>valid. get_valid_datasets t sd ed = Inr valid \<and> distinct valid \<and>
           (\<forall>x. x \<in> set valid \<longleftrightarrow>
                 (x = ''landsat_tm_c2_l2'' \<and> overlaps s e (1982, 7, 16) (2011, 6, 5)) \<or>
                 (x = ''landsat_etm_c2_l2'' \<and> overlaps s e (1999, 4, 15) (2022, 4, 6)) \<or>
                 (x = ''landsat_ot_c2_l2'' \<and> overlaps s e (2013, 2, 11) t))"
  using assms by (auto simp: get_valid_datasets_def set_add_def Let_def)

lemma overlaps_widen:
  assumes "s2 \<le> s1" and "e1 \<le> e2" and "overlaps s1 e1 a b"
  shows "overlaps s2 e2 a b"
proof -
  have "max s2 a \<le> max s1 a" by (intro max.mono assms(1) order_refl)
  also have "\<dots> \<le> min e1 b" using assms(3) by (simp only: overlaps_def)
  also have "\<dots> \<le> min e2 b" by (intro min.mono assms(2) order_refl)
  finally show ?thesis by (simp only: overlaps_def)
qed

text \<open>
  C1: for two strings that parse to the dates \<open>s \<le> e\<close>, \<open>get_valid_datasets\<close>
  returns a collection in which \<open>landsat_tm_c2_l2\<close> appears if and only if
  \<open>max s 1982-07-16 \<le> min e 2011-06-05\<close>, \<open>landsat_etm_c2_l2\<close> if and only if
  \<open>max s 1999-04-15 \<le> min e 2022-04-06\<close>, and \<open>landsat_ot_c2_l2\<close> if and only if
  \<open>max s 2013-02-11 \<le> min e today\<close>; nothing else appears.
\<close>

theorem get_valid_datasets_overlap:
  assumes "strptime_date sd = Inr s" and "strptime_date ed = Inr e" and "s \<le> e"
  shows "\<exists>valid. get_valid_datasets t sd ed = Inr valid \<and>
           (''landsat_tm_c2_l2'' \<in> set valid \<longleftrightarrow>
              max s (1982, 7, 16) \<le> min e (2011, 6, 5)) \<and>
           (''landsat_etm_c2_l2'' \<in> set valid \<longleftrightarrow>
              max s (1999, 4, 15) \<le> min e (2022, 4, 6)) \<and>
           (''landsat_ot_c2_l2'' \<in> set valid \<longleftrightarrow>
              max s (2013, 2, 11) \<le> min e t) \<and>
           set valid \<subseteq> {''landsat_tm_c2_l2'', ''landsat_etm_c2_l2'', ''landsat_ot_c2_l2''}"
proof -
  from get_valid_datasets_parsed [OF assms(1,2), of t]
  obtain valid where v: "get_valid_datasets t sd ed = Inr valid"
    and sv: "\<And>x. x \<in> set valid \<longleftrightarrow>
                 (x = ''landsat_tm_c2_l2'' \<and> overlaps s e (1982, 7, 16) (2011, 6, 5)) \<or>
                 (x = ''landsat_etm_c2_l2'' \<and> overlaps s e (1999, 4, 15) (2022, 4, 6)) \<or>
                 (x = ''landsat_ot_c2_l2'' \<and> overlaps s e (2013, 2, 11) t)"
    by blast
  have tm: "''landsat_tm_c2_l2'' \<in> set valid \<longleftrightarrow> max s (1982, 7, 16) \<le> min e (2011, 6, 5)"
    by (simp only: sv overlaps_def) simp
  have etm: "''landsat_etm_c2_l2'' \<in> set valid \<longleftrightarrow> max s (1999, 4, 15) \<le> min e (2022, 4, 6)"
    by (simp only: sv overlaps_def) simp
  have ot: "''landsat_ot_c2_l2'' \<in> set valid \<longleftrightarrow> max s (2013, 2, 11) \<le> min e t"
    by (simp only: sv overlaps_def) simp
  have sub: "set valid \<subseteq> {''landsat_tm_c2_l2'', ''landsat_etm_c2_l2'', ''landsat_ot_c2_l2''}"
    using sv by blast
  from v tm etm ot sub show ?thesis by blast
qed

theorem get_valid_datasets_overlap_witness:
  "\<exists>valid. get_valid_datasets (2026, 11, 4) ''1999-04-15'' ''1999-04-15'' = Inr valid \<and>
     ''landsat_tm_c2_l2'' \<in> set valid \<and> ''landsat_etm_c2_l2'' \<in> set valid \<and>
     ''landsat_ot_c2_l2'' \<notin> set valid"
proof -
  have s: "strptime_date ''1999-04-15'' = Inr (1999, 4, 15)"
    by (simp add: strptime_defs)
  have le: "((1999, 4, 15) :: date) \<le> (1999, 4, 15)" by simp
  have tm: "max (1999, 4, 15) (1982, 7, 16) \<le> min (1999, 4, 15) ((2011, 6, 5) :: date)" by simp
  have etm: "max (1999, 4, 15) (1999, 4, 15) \<le> min (1999, 4, 15) ((2022, 4, 6) :: date)" by simp
  have ot: "\<not> max (1999, 4, 15) (2013, 2, 11) \<le> min (1999, 4, 15) ((2026, 11, 4) :: date)" by simp
  from get_valid_datasets_overlap [OF s s le, of "(2026, 11, 4)"]
  have "\<exists>valid. get_valid_datasets (2026, 11, 4) ''1999-04-15'' ''1999-04-15'' = Inr valid \<and>
           (''landsat_tm_c2_l2'' \<in> set valid \<longleftrightarrow> True) \<and>
           (''landsat_etm_c2_l2'' \<in> set valid \<longleftrightarrow> True) \<and>
           (''landsat_ot_c2_l2'' \<in> set valid \<longleftrightarrow> False) \<and>
           set valid \<subseteq> {''landsat_tm_c2_l2'', ''landsat_etm_c2_l2'', ''landsat_ot_c2_l2''}"
    by (simp only: tm etm ot)
  then show ?thesis by (elim exE conjE) (intro exI conjI, simp_all)
qed

text \<open>
  C2, as stated: for the window 2012-01-01 to 2014-01-01 the result would hold the TM
  and the OLI/TIRS identifiers and leave out the ETM+ one. On 2026-11-04 the function
  returns the ETM+ and the OLI/TIRS identifiers: the TM interval ended on 2011-06-05,
  before the window, and the ETM+ interval covers all of it.
\<close>

theorem window_2012_2014_counterexample:
  "get_valid_datasets (2026, 11, 4) ''2012-01-01'' ''2014-01-01'' =
     Inr [''landsat_etm_c2_l2'', ''landsat_ot_c2_l2''] \<and>
   ''landsat_tm_c2_l2'' \<notin> set [''landsat_etm_c2_l2'', ''landsat_ot_c2_l2''] \<and>
   ''landsat_etm_c2_l2'' \<in> set [''landsat_etm_c2_l2'', ''landsat_ot_c2_l2'']"
  by (simp add: get_valid_datasets_def overlaps_def set_add_def strptime_defs)

text \<open>
  C2, amended: for the window 2012-01-01 to 2014-01-01, on any day from 2013-02-11 on,
  \<open>get_valid_datasets\<close> returns exactly \<open>landsat_etm_c2_l2\<close> and
  \<open>landsat_ot_c2_l2\<close>, and so leaves out \<open>landsat_tm_c2_l2\<close>.
\<close>

theorem window_2012_2014:
  assumes "(2013, 2, 11) \<le> t"
  shows "\<exists>valid. get_valid_datasets t ''2012-01-01'' ''2014-01-01'' = Inr valid \<and>
           set valid = {''landsat_etm_c2_l2'', ''landsat_ot_c2_l2''}"
proof -
  have s: "strptime_date ''2012-01-01'' = Inr (2012, 1, 1)"
    by (simp add: strptime_defs)
  have e: "strptime_date ''2014-01-01'' = Inr (2014, 1, 1)"
    by (simp add: strptime_defs)
  have ot: "overlaps (2012, 1, 1) (2014, 1, 1) (2013, 2, 11) t"
    using assms by (simp add: overlaps_def)
  have tm: "\<not> overlaps (2012, 1, 1) (2014, 1, 1) (1982, 7, 16) (2011, 6, 5)"
    by (simp add: overlaps_def)
  have etm: "overlaps (2012, 1, 1) (2014, 1, 1) (1999, 4, 15) (2022, 4, 6)"
    by (simp add: overlaps_def)
  from get_valid_datasets_parsed [OF s e, of t] obtain valid where
    v: "get_valid_datasets t ''2012-01-01'' ''2014-01-01'' = Inr valid" and
    sv: "\<And>x. x \<in> set valid \<longleftrightarrow>
                 (x = ''landsat_tm_c2_l2'' \<and> overlaps (2012, 1, 1) (2014, 1, 1) (1982, 7, 16) (2011, 6, 5)) \<or>
                 (x = ''landsat_etm_c2_l2'' \<and> overlaps (2012, 1, 1) (2014, 1, 1) (1999, 4, 15) (2022, 4, 6)) \<or>
                 (x = ''landsat_ot_c2_l2'' \<and> overlaps (2012, 1, 1) (2014, 1, 1) (2013, 2, 11) t)"
    by blast
  have "\<And>x. x \<in> set valid \<longleftrightarrow> x = ''landsat_etm_c2_l2'' \<or> x = ''landsat_ot_c2_l2''"
    by (simp only: sv ot tm etm) simp
  then have "set valid = {''landsat_etm_c2_l2'', ''landsat_ot_c2_l2''}" by blast
  with v show ?thesis by blast
qed

theorem window_2012_2014_witness:
  "(2013, 2, 11) \<le> ((2026, 11, 4) :: date) \<and>
   (\<exists>valid. get_valid_datasets (2026, 11, 4) ''2012-01-01'' ''2014-01-01'' = Inr valid \<and>
           set valid = {''landsat_etm_c2_l2'', ''landsat_ot_c2_l2''})"
proof -
  have h: "(2013, 2, 11) \<le> ((2026, 11, 4) :: date)" by simp
  from h window_2012_2014 [OF h] show ?thesis by (rule conjI)
qed

text \<open>
  C7: \<open>overlaps\<close> gives the same answer when the two intervals are exchanged, and
  an interval of the single day \<open>d\<close> overlaps every interval \<open>[d, e]\<close> with
  \<open>d \<le> e\<close>: a shared boundary day counts.
\<close>

theorem overlaps_commutative_inclusive:
  "overlaps s1 e1 s2 e2 = overlaps s2 e2 s1 e1 \<and> (d \<le> e \<longrightarrow> overlaps d d d e)"
  by (simp add: overlaps_def max.commute min.commute)

theorem overlaps_commutative_inclusive_witness:
  "overlaps (1999, 4, 15) (1999, 4, 15) (1999, 4, 15) (2022, 4, 6) \<and>
   overlaps (1999, 4, 15) (2022, 4, 6) (1999, 4, 15) (1999, 4, 15)"
proof -
  have h: "((1999, 4, 15) :: date) \<le> (2022, 4, 6)" by simp
  from overlaps_commutative_inclusive
    [of "(1999, 4, 15)" "(1999, 4, 15)" "(1999, 4, 15)" "(2022, 4, 6)" "(1999, 4, 15)" "(2022, 4, 6)"] h
  show ?thesis by blast
qed

text \<open>
  C9: widening the window never removes a dataset. If the window \<open>[s1, e1]\<close> lies
  inside \<open>[s2, e2]\<close>, then on the same day every identifier returned for the first
  is returned for the second.
\<close>

theorem get_valid_datasets_monotone:
  assumes "strptime_date sd1 = Inr s1" and "strptime_date ed1 = Inr e1"
    and "strptime_date sd2 = Inr s2" and "strptime_date ed2 = Inr e2"
    and "s2 \<le> s1" and "e1 \<le> e2"
  shows "\<exists>v1 v2. get_valid_datasets t sd1 ed1 = Inr v1 \<and> get_valid_datasets t sd2 ed2 = Inr v2 \<and>
           set v1 \<subseteq> set v2"
proof -
  note mono = overlaps_widen [OF assms(5,6)]
  from get_valid_datasets_parsed [OF assms(1,2), of t] obtain v1 where
    v1: "get_valid_datasets t sd1 ed1 = Inr v1" and
    m1: "\<And>x. x \<in> set v1 \<longleftrightarrow>
                 (x = ''landsat_tm_c2_l2'' \<and> overlaps s1 e1 (1982, 7, 16) (2011, 6, 5)) \<or>
                 (x = ''landsat_etm_c2_l2'' \<and> overlaps s1 e1 (1999, 4, 15) (2022, 4, 6)) \<or>
                 (x = ''landsat_ot_c2_l2'' \<and> overlaps s1 e1 (2013, 2, 11) t)" by blast
  from get_valid_datasets_parsed [OF assms(3,4), of t] obtain v2 where
    v2: "get_valid_datasets t sd2 ed2 = Inr v2" and
    m2: "\<And>x. x \<in> set v2 \<longleftrightarrow>
                 (x = ''landsat_tm_c2_l2'' \<and> overlaps s2 e2 (1982, 7, 16) (2011, 6, 5)) \<or>
                 (x = ''landsat_etm_c2_l2'' \<and> overlaps s2 e2 (1999, 4, 15) (2022, 4, 6)) \<or>
                 (x = ''landsat_ot_c2_l2'' \<and> overlaps s2 e2 (2013, 2, 11) t)" by blast
  have "set v1 \<subseteq> set v2"
  proof
    fix x assume "x \<in> set v1"
    then have "(x = ''landsat_tm_c2_l2'' \<and> overlaps s1 e1 (1982, 7, 16) (2011, 6, 5)) \<or>
                 (x = ''landsat_etm_c2_l2'' \<and> overlaps s1 e1 (1999, 4, 15) (2022, 4, 6)) \<or>
                 (x = ''landsat_ot_c2_l2'' \<and> overlaps s1 e1 (2013, 2, 11) t)"
      by (simp only: m1)
    then have "(x = ''landsat_tm_c2_l2'' \<and> overlaps s2 e2 (1982, 7, 16) (2011, 6, 5)) \<or>
                 (x = ''landsat_etm_c2_l2'' \<and> overlaps s2 e2 (1999, 4, 15) (2022, 4, 6)) \<or>
                 (x = ''landsat_ot_c2_l2'' \<and> overlaps s2 e2 (2013, 2, 11) t)"
      by (elim disjE conjE) (simp_all add: mono)
    then show "x \<in> set v2" by (simp only: m2)
  qed
  with v1 v2 show ?thesis by blast
qed

theorem get_valid_datasets_monotone_witness:
  "\<exists>v1 v2. get_valid_datasets (2026, 11, 4) ''2010-01-01'' ''2010-12-31'' = Inr v1 \<and>
     get_valid_datasets (2026, 11, 4) ''2009-06-01'' ''2014-02-28'' = Inr v2 \<and>
     set v1 \<subseteq> set v2"
proof -
  have a: "strptime_date ''2010-01-01'' = Inr (2010, 1, 1)" by (simp add: strptime_defs)
  have b: "strptime_date ''2010-12-31'' = Inr (2010, 12, 31)" by (simp add: strptime_defs)
  have c: "strptime_date ''2009-06-01'' = Inr (2009, 6, 1)" by (simp add: strptime_defs)
  have d: "strptime_date ''2014-02-28'' = Inr (2014, 2, 28)" by (simp add: strptime_defs)
  have le1: "((2009, 6, 1) :: date) \<le> (2010, 1, 1)" by simp
  have le2: "((2010, 12, 31) :: date) \<le> (2014, 2, 28)" by simp
  from get_valid_datasets_monotone [OF a b c d le1 le2, of "(2026, 11, 4)"]
  show ?thesis .
qed

subsection \<open>Candidate selection\<close>

text \<open>\<open>str_contains\<close> is the contiguous-sublist relation of HOL-Library.Sublist.\<close>

lemma str_contains_sublist: "str_contains a b \<longleftrightarrow> sublist a b"
  by (induction b) (simp_all add: sublist_Cons_right)





subsection \<open>The calls of a run\<close>

lemma calls_print [simp]: "calls (print m st) = calls st"
  by (simp add: print_def)

lemma files_print [simp]: "files (print m st) = files st"
  by (simp add: print_def)

lemma printed_print [simp]: "printed (print m st) = printed st @ [m]"
  by (simp add: print_def)



lemma downloadFile_returns: "fst (downloadFile w url path st) = None"
  by (cases "downloadFile_try w url path st") (simp add: downloadFile_def split: option.splits)




lemma process_datasets_calls:
  "process_datasets w a k ds acc st = (r, st') \<Longrightarrow>
     \<exists>cs. calls st' = calls st @ cs \<and> (\<forall>c \<in> set cs. search_url (fst c))"
proof (induction ds arbitrary: acc st)
  case Nil
  then show ?case by simp
next
  case (Cons d ds)
  define st1 where "st1 = (print (Searching d) st)\<lparr>calls := calls st @ [(serviceUrl @ ''scene-search'', scene_payload a d)]\<rparr>"
  have c1: "calls st1 = calls st @ [(serviceUrl @ ''scene-search'', scene_payload a d)]"
    by (simp add: st1_def)
  have skip: "\<exists>cs. calls st' = calls st @ cs \<and> (\<forall>c \<in> set cs. search_url (fst c))"
    if "process_datasets w a k ds acc' st2 = (r, st')"
      and "\<exists>cs. calls st2 = calls st @ cs \<and> (\<forall>c \<in> set cs. search_url (fst c))" for acc' st2
  proof -
    from Cons.IH [OF that(1)] obtain cs where
      cs: "calls st' = calls st2 @ cs" "\<forall>c \<in> set cs. search_url (fst c)" by blast
    from that(2) obtain cs0 where
      cs0: "calls st2 = calls st @ cs0" "\<forall>c \<in> set cs0. search_url (fst c)" by blast
    from cs cs0 have "calls st' = calls st @ (cs0 @ cs) \<and> (\<forall>c \<in> set (cs0 @ cs). search_url (fst c))"
      by auto
    then show ?thesis by blast
  qed
  have one: "\<exists>cs. calls st1 = calls st @ cs \<and> (\<forall>c \<in> set cs. search_url (fst c))"
    by (rule exI [of _ "[(serviceUrl @ ''scene-search'', scene_payload a d)]"])
       (simp add: c1 search_url_def)
  show ?case
  proof (cases "scene_search w (scene_payload a d) k")
    case (Inl e)
    with Cons.prems have "st' = st1" by (simp add: sendRequest_def st1_def)
    with one show ?thesis by simp
  next
    case (Inr sc)
    show ?thesis
    proof (cases sc)
      case Falsy
      with Inr Cons.prems have "process_datasets w a k ds acc (print (NoScenes d) st1) = (r, st')"
        by (simp add: sendRequest_def st1_def)
      then show ?thesis by (rule skip) (use one in simp)
    next
      case WithoutResults
      with Inr Cons.prems have "process_datasets w a k ds acc (print (NoScenes d) st1) = (r, st')"
        by (simp add: sendRequest_def st1_def)
      then show ?thesis by (rule skip) (use one in simp)
    next
      case (Results ids)
      show ?thesis
      proof (cases "ids = []")
        case True
        with Results Inr Cons.prems
        have "process_datasets w a k ds acc (print (NoScenes d) st1) = (r, st')"
          by (simp add: sendRequest_def st1_def)
        then show ?thesis by (rule skip) (use one in simp)
      next
        case False
        define st2 where "st2 = st1\<lparr>calls := calls st1 @ [(serviceUrl @ ''download-options'', DownloadOptionsPayload d ids True)]\<rparr>"
        have two: "\<exists>cs. calls st2 = calls st @ cs \<and> (\<forall>c \<in> set cs. search_url (fst c))"
          by (rule exI [of _ "[(serviceUrl @ ''scene-search'', scene_payload a d),
                 (serviceUrl @ ''download-options'', DownloadOptionsPayload d ids True)]"])
             (simp add: st2_def c1 search_url_def)
        show ?thesis
        proof (cases "download_options w (DownloadOptionsPayload d ids True) k")
          case (Inl e)
          with False Results Inr Cons.prems
          have "process_datasets w a k ds acc (print (OptionsError d e) st2) = (r, st')"
            by (simp add: sendRequest_def st1_def st2_def)
          then show ?thesis by (rule skip) (use two in simp)
        next
          case opts: (Inr options)
          show ?thesis
          proof (cases "option_loop options acc")
            case (Inl e)
            with opts False Results Inr Cons.prems have "st' = st2"
              by (simp add: sendRequest_def st1_def st2_def)
            with two show ?thesis by simp
          next
            case acc': (Inr acc')
            with opts False Results Inr Cons.prems
            have "process_datasets w a k ds acc' st2 = (r, st')"
              by (simp add: sendRequest_def st1_def st2_def)
            then show ?thesis by (rule skip) (use two in simp)
          qed
        qed
      qed
    qed
  qed
qed

lemma search_all_calls:
  assumes "search_all w a ds files0 = (r, st)"
  shows "\<forall>c \<in> set (calls st). fst c \<noteq> serviceUrl @ ''download-request''"
proof (cases "login_token w (LoginPayload (username a) (token a)) None")
  case (Inl e)
  with assms have "calls st = [(serviceUrl @ ''login-token'', LoginPayload (username a) (token a))]"
    by (auto simp: search_all_def sendRequest_def)
  then show ?thesis by simp
next
  case (Inr key)
  define st0 :: "'a state" where
    "st0 = (print (UsingDatasets ds) \<lparr>printed = [], calls = [], files = files0\<rparr>)
             \<lparr>calls := [(serviceUrl @ ''login-token'', LoginPayload (username a) (token a))]\<rparr>"
  obtain r' st' where p: "process_datasets w a (Some key) ds [] st0 = (r', st')"
    by (cases "process_datasets w a (Some key) ds [] st0")
  from process_datasets_calls [OF p] obtain cs where
    cs: "calls st' = calls st0 @ cs" "\<forall>c \<in> set cs. search_url (fst c)" by blast
  from assms Inr p have "st = st'"
    by (auto simp: search_all_def sendRequest_def st0_def split: sum.splits)
  moreover have "\<forall>c \<in> set (calls st0). fst c \<noteq> serviceUrl @ ''download-request''"
    by (simp add: st0_def)
  moreover have "\<forall>c \<in> set cs. fst c \<noteq> serviceUrl @ ''download-request''"
    using cs(2) by (auto simp: search_url_def)
  ultimately show ?thesis using cs(1) by auto
qed

lemma url_not_called: "\<forall>c \<in> set cs. fst c \<noteq> u \<Longrightarrow> u \<notin> fst ` set cs"
  by auto

text \<open>
  C4: if the accumulator is empty after the last dataset, the run ends with
  \<open>sys.exit(0)\<close> after printing its message, and no call of \<open>sendRequest\<close> went to
  the download-request url.
\<close>

theorem empty_accumulator_exit:
  assumes "search_all w a datasetNames files0 = (Inr (apiKey, []), st)"
  shows "run w a datasetNames files0 = (Exit 0, print NoValidDownloads st) \<and>
         printed (snd (run w a datasetNames files0)) = printed st @ [NoValidDownloads] \<and>
         (\<forall>c \<in> set (calls (snd (run w a datasetNames files0))).
             fst c \<noteq> serviceUrl @ ''download-request'')"
proof -
  have r: "run w a datasetNames files0 = (Exit 0, print NoValidDownloads st)"
    using assms by (simp add: run_def finish_def)
  from search_all_calls [OF assms] r show ?thesis by simp
qed

theorem empty_accumulator_exit_witness:
  "fst (run (sample_world Falsy) sample_args [''landsat_etm_c2_l2'', ''landsat_ot_c2_l2''] Map.empty) =
     Exit 0 \<and>
   serviceUrl @ ''download-request'' \<notin>
     fst ` set (calls (snd (run (sample_world Falsy) sample_args
                              [''landsat_etm_c2_l2'', ''landsat_ot_c2_l2''] Map.empty)))"
proof -
  let ?r = "run (sample_world Falsy) sample_args [''landsat_etm_c2_l2'', ''landsat_ot_c2_l2''] Map.empty"
  have "fst (search_all (sample_world Falsy) sample_args
               [''landsat_etm_c2_l2'', ''landsat_ot_c2_l2''] Map.empty) = Inr (Some ''key'', [])"
    by (simp add: search_all_def sendRequest_def sample_world_def sample_args_def
          scene_payload_def print_def)
  then have h: "search_all (sample_world Falsy) sample_args
               [''landsat_etm_c2_l2'', ''landsat_ot_c2_l2''] Map.empty =
             (Inr (Some ''key'', []),
              snd (search_all (sample_world Falsy) sample_args
                     [''landsat_etm_c2_l2'', ''landsat_ot_c2_l2''] Map.empty))"
    by (simp add: prod_eq_iff)
  note t = empty_accumulator_exit [OF h]
  from t [THEN conjunct1] have a: "fst ?r = Exit 0" by (simp only: fst_conv)
  from t [THEN conjunct2, THEN conjunct2]
  have b: "serviceUrl @ ''download-request'' \<notin> fst ` set (calls (snd ?r))"
    by (rule url_not_called)
  from a b show ?thesis by (rule conjI)
qed




subsection \<open>Failures of one dataset\<close>

text \<open>The state is only written to: the accumulator does not depend on it.\<close>

lemma process_datasets_result_state:
  "fst (process_datasets w a k ds acc st) = fst (process_datasets w a k ds acc st')"
proof (induction ds arbitrary: acc st st')
  case Nil
  show ?case by simp
next
  case (Cons d ds)
  show ?case
    by (auto simp: sendRequest_def split: sum.splits scenes.splits intro: Cons.IH)
qed

lemma process_datasets_append:
  "process_datasets w a k (ds1 @ ds2) acc st =
     (case process_datasets w a k ds1 acc st of
        (Inl e, st') \<Rightarrow> (Inl e, st')
      | (Inr acc', st') \<Rightarrow> process_datasets w a k ds2 acc' st')"
proof (induction ds1 arbitrary: acc st)
  case Nil
  show ?case by simp
next
  case (Cons d ds1)
  show ?case
    by (simp add: sendRequest_def Cons.IH split: sum.splits scenes.splits)
qed

text \<open>
  C8: when the download-options request of a dataset raises, the loop prints the error
  and goes on with the next dataset, the accumulator unchanged; so the run ends with the
  accumulator, or the exception, that it would have ended with had that dataset not been
  in the list.
\<close>

theorem options_failure_isolated:
  assumes "scene_search w (scene_payload a d) k = Inr (Results sceneIds)"
    and "sceneIds \<noteq> []"
    and "download_options w (DownloadOptionsPayload d sceneIds True) k = Inl e"
  shows "process_datasets w a k (d # rest) acc st =
           process_datasets w a k rest acc
             (st\<lparr>calls := calls st @
                   [(serviceUrl @ ''scene-search'', scene_payload a d),
                    (serviceUrl @ ''download-options'', DownloadOptionsPayload d sceneIds True)],
                 printed := printed st @ [Searching d, OptionsError d e]\<rparr>) \<and>
         fst (process_datasets w a k (before @ d # rest) acc st) =
           fst (process_datasets w a k (before @ rest) acc st)"
proof
  show step: "process_datasets w a k (d # rest) acc st =
           process_datasets w a k rest acc
             (st\<lparr>calls := calls st @
                   [(serviceUrl @ ''scene-search'', scene_payload a d),
                    (serviceUrl @ ''download-options'', DownloadOptionsPayload d sceneIds True)],
                 printed := printed st @ [Searching d, OptionsError d e]\<rparr>)"
    for acc st
    using assms by (simp add: sendRequest_def print_def)
  obtain r st' where b: "process_datasets w a k before acc st = (r, st')"
    by (cases "process_datasets w a k before acc st")
  show "fst (process_datasets w a k (before @ d # rest) acc st) =
           fst (process_datasets w a k (before @ rest) acc st)"
  proof (cases r)
    case (Inl e')
    with b show ?thesis by (simp add: process_datasets_append)
  next
    case (Inr acc')
    with b have "fst (process_datasets w a k (before @ d # rest) acc st) =
                 fst (process_datasets w a k (d # rest) acc' st')"
      by (simp add: process_datasets_append)
    also have "\<dots> = fst (process_datasets w a k rest acc' st')"
      by (simp only: step) (rule process_datasets_result_state)
    also have "\<dots> = fst (process_datasets w a k (before @ rest) acc st)"
      using b Inr by (simp add: process_datasets_append)
    finally show ?thesis .
  qed
qed

theorem options_failure_isolated_witness:
  "fst (process_datasets (sample_world (Results [''S1''])) sample_args (Some ''key'')
          [''landsat_tm_c2_l2'', ''landsat_etm_c2_l2'', ''landsat_ot_c2_l2''] [] sample_state) =
     Inr [\<lparr>entityId = ''E1'', productId = ''P1''\<rparr>, \<lparr>entityId = ''E1'', productId = ''P1''\<rparr>]"
proof -
  have s: "scene_search (sample_world (Results [''S1'']))
             (scene_payload sample_args ''landsat_etm_c2_l2'') (Some ''key'') = Inr (Results [''S1''])"
    by (simp add: sample_world_def)
  have n: "[''S1''] \<noteq> []" by simp
  have f: "download_options (sample_world (Results [''S1'']))
             (DownloadOptionsPayload ''landsat_etm_c2_l2'' [''S1''] True) (Some ''key'') =
           Inl (RequestError ''503'')"
    by (simp add: sample_world_def sample_options_def)
  from options_failure_isolated [OF s n f, of "[''landsat_ot_c2_l2'']" "[]" sample_state
      "[''landsat_tm_c2_l2'']"]
  have "fst (process_datasets (sample_world (Results [''S1''])) sample_args (Some ''key'')
          ([''landsat_tm_c2_l2''] @ ''landsat_etm_c2_l2'' # [''landsat_ot_c2_l2'']) [] sample_state) =
        fst (process_datasets (sample_world (Results [''S1''])) sample_args (Some ''key'')
          ([''landsat_tm_c2_l2''] @ [''landsat_ot_c2_l2'']) [] sample_state)"
    by (rule conjunct2)
  also have "\<dots> = Inr [\<lparr>entityId = ''E1'', productId = ''P1''\<rparr>, \<lparr>entityId = ''E1'', productId = ''P1''\<rparr>]"
    by (simp add: sendRequest_def sample_world_def sample_options_def sample_item_def
          bandNames_def scene_payload_def sample_args_def)
  finally show ?thesis by simp
qed

subsection \<open>downloadFile\<close>

lemma findall_filename_none: "\<not> str_contains ''filename='' s \<Longrightarrow> findall_filename s = []"
proof (induction s)
  case Nil
  show ?case by simp
next
  case (Cons c cs)
  from Cons.prems have np: "\<not> prefix ''filename='' (c # cs)" and nc: "\<not> str_contains ''filename='' cs"
    by (simp_all only: str_contains.simps de_Morgan_disj simp_thms)
  from Cons.IH [OF nc] np show ?case
    by (simp only: findall_filename.simps simp_thms if_False)
qed

text \<open>
  C6: \<open>downloadFile\<close> returns for every url and path, whatever the request, the file
  system or the body do: no exception reaches the caller. When the
  \<open>content-disposition\<close> header (or the empty string, if there is none) does not
  contain \<open>filename=\<close>, the call prints its warning and returns with the file system
  as it was.
\<close>

theorem downloadFile_never_raises:
  "fst (downloadFile w url path st) = None \<and>
   (http_get w url = Inr r \<longrightarrow>
    \<not> str_contains ''filename='' (case content_disposition r of None \<Rightarrow> [] | Some d \<Rightarrow> d) \<longrightarrow>
      downloadFile w url path st = (None, print NoFilename st) \<and>
      files (snd (downloadFile w url path st)) = files st)"
proof (intro conjI impI)
  show "fst (downloadFile w url path st) = None" by (rule downloadFile_returns)
next
  assume g: "http_get w url = Inr r"
    and n: "\<not> str_contains ''filename='' (case content_disposition r of None \<Rightarrow> [] | Some d \<Rightarrow> d)"
  from findall_filename_none [OF n] g
  show d: "downloadFile w url path st = (None, print NoFilename st)"
    by (simp add: downloadFile_def downloadFile_try_def)
  show "files (snd (downloadFile w url path st)) = files st"
    by (simp add: d)
qed

theorem downloadFile_never_raises_witness:
  "downloadFile (sample_world Falsy) ''https://host/f1'' ''out'' sample_state =
     (None, print NoFilename sample_state)"
proof -
  have g: "http_get (sample_world Falsy) ''https://host/f1'' =
             Inr \<lparr>content_disposition = Some ''attachment'', content = Inr ''data''\<rparr>"
    by (simp add: sample_world_def)
  have n: "\<not> str_contains ''filename=''
             (case content_disposition \<lparr>content_disposition = Some ''attachment'', content = Inr ''data''\<rparr>
              of None \<Rightarrow> [] | Some d \<Rightarrow> d)"
    by simp
  note t = downloadFile_never_raises [of "sample_world Falsy" "''https://host/f1''" "''out''"
      sample_state "\<lparr>content_disposition = Some ''attachment'', content = Inr ''data''\<rparr>"]
  from t [THEN conjunct2, rule_format, OF g n] show ?thesis by (rule conjunct1)
qed

subsection \<open>The rename pass\<close>























end
